theory Spec2Isabelle
  imports Complex_Main "HOL-Library.Multiset"
begin

section \<open>Ingestion: page processor and file handler\<close>

subsection \<open>Strings and paths\<close>

text \<open>
  Strings are lists of 8-bit characters. The Python source works on Unicode strings; the
  model covers ASCII text, where \<open>str.lower\<close>, \<open>str.strip\<close> and the regular expression
  class \<open>\d\<close> act as written below.
\<close>

definition is_digit :: "char \<Rightarrow> bool" where
  "is_digit c = ((48::nat) \<le> of_char c \<and> of_char c \<le> (57::nat))"

definition is_space :: "char \<Rightarrow> bool" where
  "is_space c = (c = CHR '' '' \<or> ((9::nat) \<le> of_char c \<and> of_char c \<le> (13::nat))
     \<or> ((28::nat) \<le> of_char c \<and> of_char c \<le> (31::nat)))"

definition lower_char :: "char \<Rightarrow> char" where
  "lower_char c =
     (if (65::nat) \<le> of_char c \<and> of_char c \<le> (90::nat)
      then char_of (of_char c + (32::nat)) else c)"

definition lower :: "string \<Rightarrow> string" where
  "lower s = map lower_char s"

text \<open>\<open>str.strip()\<close>: whitespace removed at both ends.\<close>

definition strip :: "string \<Rightarrow> string" where
  "strip s = rev (dropWhile is_space (rev (dropWhile is_space s)))"

text \<open>\<open>str.split(sep)\<close> for a one-character separator.\<close>

fun split_on :: "char \<Rightarrow> string \<Rightarrow> string list" where
  "split_on sep [] = [[]]"
| "split_on sep (c # cs) =
     (if c = sep then [] # split_on sep cs
      else (case split_on sep cs of
              [] \<Rightarrow> [[c]]
            | w # ws \<Rightarrow> (c # w) # ws))"

text \<open>
  \<open>Path(p).name\<close> on a POSIX path: the last component, where empty components and
  \<open>.\<close> components do not count; the empty string when there is none.
\<close>

definition path_name :: "string \<Rightarrow> string" where
  "path_name p =
     (case filter (\<lambda>part. part \<noteq> [] \<and> part \<noteq> ''.'') (split_on CHR ''/'' p) of
        [] \<Rightarrow> []
      | parts \<Rightarrow> last parts)"

text \<open>\<open>str.rfind(c)\<close>: the highest index holding \<open>c\<close>; \<open>None\<close> stands for Python's -1.\<close>

definition rfind :: "char \<Rightarrow> string \<Rightarrow> nat option" where
  "rfind c s =
     (case filter (\<lambda>i. s ! i = c) (rev [0..<length s]) of
        [] \<Rightarrow> None
      | i # _ \<Rightarrow> Some i)"

text \<open>
  \<open>Path(p).suffix\<close> and \<open>Path(p).stem\<close>: \<open>i = name.rfind('.')\<close>, and the name is cut at
  \<open>i\<close> when \<open>0 < i < len(name) - 1\<close>.
\<close>

definition path_suffix :: "string \<Rightarrow> string" where
  "path_suffix p =
     (let name = path_name p in
      case rfind CHR ''.'' name of
        None \<Rightarrow> []
      | Some i \<Rightarrow> if 0 < i \<and> i + 1 < length name then drop i name else [])"

definition path_stem :: "string \<Rightarrow> string" where
  "path_stem p =
     (let name = path_name p in
      case rfind CHR ''.'' name of
        None \<Rightarrow> name
      | Some i \<Rightarrow> if 0 < i \<and> i + 1 < length name then take i name else name)"

text \<open>\<open>re.search(r'\d+', s)\<close>: the leftmost, longest run of digits, if there is one.\<close>

definition re_search_digits :: "string \<Rightarrow> string option" where
  "re_search_digits s =
     (case dropWhile (\<lambda>c. \<not> is_digit c) s of
        [] \<Rightarrow> None
      | r \<Rightarrow> Some (takeWhile is_digit r))"

text \<open>\<open>int(ds)\<close> for a string of decimal digits.\<close>

definition digit_val :: "char \<Rightarrow> int" where
  "digit_val c = int (of_char c) - 48"

definition int_of_digits :: "string \<Rightarrow> int" where
  "int_of_digits ds = foldl (\<lambda>a c. 10 * a + digit_val c) 0 ds"

subsection \<open>Page processor\<close>

record PageData =
  page_number :: int
  "text" :: string
  word_count :: int

text \<open>
  \<open>PageProcessor.text2json\<close>. The call of the extraction model followed by
  \<open>PageData.model_validate_json\<close> is the parameter \<open>extractor\<close>, from the page text to the
  validated record; \<open>None\<close> stands for any exception raised there, which the \<open>except\<close>
  clause turns into the result \<open>None\<close>.
\<close>

definition text2json :: "(string \<Rightarrow> PageData option) \<Rightarrow> string \<Rightarrow> string \<Rightarrow> PageData option" where
  "text2json extractor page_text image_path =
     (let filename = path_stem image_path;
          page_number_match = re_search_digits filename;
          page_num = (case page_number_match of Some m \<Rightarrow> int_of_digits m | None \<Rightarrow> 0)
      in case extractor page_text of
           None \<Rightarrow> None
         | Some page_data \<Rightarrow>
             if page_num > 0 then Some (page_data\<lparr>page_number := page_num\<rparr>)
             else Some page_data)"

text \<open>
  \<open>PageProcessor.image2text\<close> is the call of the vision model: the parameter \<open>vision\<close>, from
  the image path to the text content, \<open>None\<close> on any exception. \<open>PageProcessor.process\<close>
  chains the two steps.
\<close>

definition process :: "(string \<Rightarrow> string option) \<Rightarrow> (string \<Rightarrow> PageData option) \<Rightarrow> string \<Rightarrow> PageData option" where
  "process vision extractor image_path =
     (case vision image_path of
        None \<Rightarrow> None
      | Some page_text \<Rightarrow>
          (case text2json extractor page_text image_path of
             None \<Rightarrow> None
           | Some page_data \<Rightarrow> Some page_data))"

subsection \<open>File handler\<close>

text \<open>A row of the CSV file: the page data with the metadata \<open>process_page\<close> adds.\<close>

record page_row = PageData +
  file_path :: string
  processed_at :: string
  audio_path :: string

datatype log_entry =
    NewImageDetected string
  | ProcessingPage string
  | SuccessfullyProcessed string int int
  | ErrorProcessingPage string
  | ErrorWritingCsv

text \<open>
  The handler object and what it writes: the set \<open>processed_files\<close>, the rows of the CSV
  file \<open>output_file\<close>, the log, and the image paths handed to \<open>processor.process\<close>, oldest
  first.
\<close>

record handler =
  processed_files :: "string set"
  csv_rows :: "page_row list"
  log :: "log_entry list"
  extraction_calls :: "string list"

definition new_handler :: "page_row list \<Rightarrow> handler" where
  "new_handler rows =
     \<lparr>processed_files = {}, csv_rows = rows, log = [], extraction_calls = []\<rparr>"

definition image_extensions :: "string set" where
  "image_extensions = {''.jpg'', ''.jpeg'', ''.png'', ''.gif'', ''.bmp'', ''.tiff'', ''.webp''}"

text \<open>
  \<open>append_to_csv\<close>: the row is appended to the file; \<open>writable\<close> is false when opening or
  writing the file raises, which the function logs and swallows.
\<close>

definition append_to_csv :: "bool \<Rightarrow> page_row \<Rightarrow> handler \<Rightarrow> handler" where
  "append_to_csv writable data h =
     (if writable then h\<lparr>csv_rows := csv_rows h @ [data]\<rparr>
      else h\<lparr>log := log h @ [ErrorWritingCsv]\<rparr>)"

text \<open>
  \<open>process_page\<close>. \<open>proc\<close> is \<open>processor.process\<close>, \<open>now\<close> the result of \<open>time.strftime\<close>.
  When \<open>proc\<close> returns \<open>None\<close>, \<open>model_dump\<close> raises and the \<open>except\<close> clause logs the error.
\<close>

definition process_page :: "(string \<Rightarrow> PageData option) \<Rightarrow> bool \<Rightarrow> string \<Rightarrow> string \<Rightarrow> handler \<Rightarrow> handler" where
  "process_page proc writable now image_path h =
     (let h1 = h\<lparr>processed_files := insert image_path (processed_files h)\<rparr>;
          h2 = h1\<lparr>log := log h1 @ [ProcessingPage image_path],
                  extraction_calls := extraction_calls h1 @ [image_path]\<rparr>
      in case proc image_path of
           None \<Rightarrow> h2\<lparr>log := log h2 @ [ErrorProcessingPage image_path]\<rparr>
         | Some page_data_obj \<Rightarrow>
             (let page_data = PageData.extend page_data_obj
                    (page_row.fields image_path now []);
                  h3 = append_to_csv writable page_data h2
              in h3\<lparr>log := log h3 @
                   [SuccessfullyProcessed image_path (page_number page_data) (word_count page_data)]\<rparr>))"

record event =
  is_directory :: bool
  src_path :: string

definition on_created :: "(string \<Rightarrow> PageData option) \<Rightarrow> bool \<Rightarrow> string \<Rightarrow> event \<Rightarrow> handler \<Rightarrow> handler" where
  "on_created proc writable now ev h =
     (if is_directory ev then h
      else
        (let fpath = src_path ev;
             file_ext = lower (path_suffix fpath)
         in if file_ext \<in> image_extensions \<and> fpath \<notin> processed_files h
            then process_page proc writable now fpath
                   (h\<lparr>log := log h @ [NewImageDetected fpath]\<rparr>)
            else h))"

text \<open>
  \<open>process_existing_files\<close> in \<open>main.py\<close>: the entries \<open>rglob("*")\<close> yields, each with
  the answer of \<open>is_file()\<close>, in traversal order. \<open>now\<close> gives the time at which each file
  is processed.
\<close>

fun process_existing_files :: "(string \<Rightarrow> PageData option) \<Rightarrow> bool \<Rightarrow> (string \<Rightarrow> string) \<Rightarrow> (string \<times> bool) list \<Rightarrow> handler \<Rightarrow> handler" where
  "process_existing_files proc writable now [] h = h"
| "process_existing_files proc writable now ((fpath, is_file) # rest) h =
     process_existing_files proc writable now rest
       (if is_file \<and> lower (path_suffix fpath) \<in> image_extensions
        then process_page proc writable (now fpath) fpath h
        else h)"

text \<open>A watch session: the creation events delivered to the handler, each with its time.\<close>

fun watch :: "(string \<Rightarrow> PageData option) \<Rightarrow> bool \<Rightarrow> (event \<times> string) list \<Rightarrow> handler \<Rightarrow> handler" where
  "watch proc writable [] h = h"
| "watch proc writable ((ev, now) # rest) h =
     watch proc writable rest (on_created proc writable now ev h)"

section \<open>Text to speech\<close>

subsection \<open>The table as a data frame\<close>

text \<open>
  A row of the data frame that \<open>pd.read_csv\<close> builds from the CSV file, one field per
  column. \<open>None\<close> is pandas' NaN, which is what an empty field is read as. The index label
  of a row is its position in the file, counted from 0.
\<close>

record df_row =
  col_page_number :: int
  col_text :: "string option"
  col_word_count :: int
  col_file_path :: string
  col_processed_at :: string
  col_audio_path :: "string option"

subsection \<open>Audio for one page\<close>

text \<open>
  What \<open>subprocess.run\<close> of the synthesis binary does for a text and an output path: it
  completes with a return code, and the output file exists afterwards or not; or it times
  out; or it raises another exception.
\<close>

datatype run_result = Completed int bool | TimeoutExpired | OtherException

definition generate_audio :: "(string \<Rightarrow> string \<Rightarrow> run_result) \<Rightarrow> string \<Rightarrow> string \<Rightarrow> string" where
  "generate_audio run_binary txt output_path =
     (case run_binary txt output_path of
        Completed returncode file_exists \<Rightarrow>
          if returncode \<noteq> 0 then []
          else if file_exists then output_path
          else []
      | TimeoutExpired \<Rightarrow> []
      | OtherException \<Rightarrow> [])"

text \<open>The format specification \<open>03d\<close>: decimal digits, zero-padded after the sign to width 3.\<close>

function decimal :: "nat \<Rightarrow> string" where
  "decimal n =
     (if n < 10 then [''0123456789'' ! n]
      else decimal (n div 10) @ [''0123456789'' ! (n mod 10)])"
  by pat_completeness auto
termination
  by (relation "measure id") auto

definition format_03d :: "int \<Rightarrow> string" where
  "format_03d n =
     (let sign = (if n < 0 then ''-'' else []);
          ds = decimal (nat \<bar>n\<bar>)
      in sign @ replicate (3 - length sign - length ds) CHR ''0'' @ ds)"

text \<open>\<open>output_dir / audio_filename\<close> as a string, for a normalised directory path.\<close>

definition path_join :: "string \<Rightarrow> string \<Rightarrow> string" where
  "path_join dir name =
     (if dir = ''.'' then name
      else if dir = ''/'' then ''/'' @ name
      else dir @ ''/'' @ name)"

subsection \<open>Batch synthesis\<close>

text \<open>
  The state of \<open>text_to_speech_batch\<close>: the data frame, and the calls of \<open>generate_audio\<close>
  made so far (text and output path), oldest first.
\<close>

record batch =
  df :: "df_row list"
  submitted :: "(string \<times> string) list"

text \<open>
  The body of the loop over \<open>df.iterrows()\<close> for the row with index label \<open>idx\<close>.
  \<open>generate_audio\<close> catches every exception itself, so the \<open>except\<close> clause of the loop has
  nothing to catch.
\<close>

definition batch_step :: "(string \<Rightarrow> string \<Rightarrow> run_result) \<Rightarrow> string \<Rightarrow> nat \<Rightarrow> df_row \<Rightarrow> batch \<Rightarrow> batch" where
  "batch_step run_binary output_dir idx row st =
     (let page_num = col_page_number row in
      case col_text row of
        None \<Rightarrow> st
      | Some txt \<Rightarrow>
          if strip txt = [] then st
          else
            (let audio_filename = ''page_'' @ format_03d page_num @ ''.wav'';
                 audio_path = path_join output_dir audio_filename;
                 result_path = generate_audio run_binary txt audio_path;
                 st1 = st\<lparr>submitted := submitted st @ [(txt, audio_path)]\<rparr>
             in if result_path \<noteq> []
                then st1\<lparr>df := (df st1)[idx := (df st1 ! idx)\<lparr>col_audio_path := Some audio_path\<rparr>]\<rparr>
                else st1))"

fun batch_loop :: "(string \<Rightarrow> string \<Rightarrow> run_result) \<Rightarrow> string \<Rightarrow> (nat \<times> df_row) list \<Rightarrow> batch \<Rightarrow> batch" where
  "batch_loop run_binary output_dir [] st = st"
| "batch_loop run_binary output_dir ((idx, row) # rest) st =
     batch_loop run_binary output_dir rest (batch_step run_binary output_dir idx row st)"

text \<open>
  \<open>text_to_speech_batch\<close>: the frame read from the CSV file goes through the loop and is
  written back. The Python function returns \<open>None\<close>; a summary of counts, if one were
  returned, would be \<open>Some (attempted, succeeded, failed)\<close>.
\<close>

definition text_to_speech_batch :: "(string \<Rightarrow> string \<Rightarrow> run_result) \<Rightarrow> string \<Rightarrow> df_row list \<Rightarrow> (nat \<times> nat \<times> nat) option \<times> batch" where
  "text_to_speech_batch run_binary output_dir csv =
     (None, batch_loop run_binary output_dir (enumerate 0 csv) \<lparr>df = csv, submitted = []\<rparr>)"

subsection \<open>Combining the audiobook\<close>

text \<open>
  A waveform is a tensor of shape (channels, samples): the list of its channels. An audio
  file on disk holds a waveform and its sample rate, or cannot be read by \<open>sf.read\<close>.
  The file system maps a path to the file there, \<open>None\<close> when no file exists.
\<close>

type_synonym 'a waveform = "'a list list"

datatype 'a audio_file = Unreadable | Audio "'a waveform" nat

datatype combine_error =
    NoAudioFiles
  | NotAPath
  | ReadFailed string
  | NegativeDimension
  | CatEmptyList
  | CatSizeMismatch
  | WriteFailed

datatype 'a segment = Clip df_row "'a waveform" | Silence "'a waveform"

fun seg_waveform :: "'a segment \<Rightarrow> 'a waveform" where
  "seg_waveform (Clip row w) = w"
| "seg_waveform (Silence w) = w"

definition sample_rate :: nat where
  "sample_rate = 24000"

text \<open>\<open>int(x)\<close> on a number: truncation towards zero. Durations are rationals here.\<close>

definition py_int :: "rat \<Rightarrow> int" where
  "py_int x = (if 0 \<le> x then \<lfloor>x\<rfloor> else \<lceil>x\<rceil>)"

text \<open>\<open>torch.zeros(channels, samples)\<close>.\<close>

definition zeros :: "nat \<Rightarrow> nat \<Rightarrow> ('a::zero) waveform" where
  "zeros channels samples = replicate channels (replicate samples 0)"

text \<open>
  \<open>torch.cat(waveforms, dim=1)\<close>: the list must not be empty and all tensors must have
  the same number of channels; channel \<open>c\<close> of the result is the concatenation of the
  channels \<open>c\<close>.
\<close>

definition torch_cat :: "'a waveform list \<Rightarrow> combine_error + 'a waveform" where
  "torch_cat ws =
     (case ws of
        [] \<Rightarrow> Inl CatEmptyList
      | w # rest \<Rightarrow>
          if list_all (\<lambda>v. length v = length w) rest
          then Inr (map (\<lambda>c. concat (map (\<lambda>v. v ! c) ws)) [0..<length w])
          else Inl CatSizeMismatch)"

text \<open>
  \<open>df[df["audio_path"].notna()].sort_values("page_number")\<close> on rows paired with their index
  labels. The sort compares the page numbers only; rows with equal page numbers keep the
  order of the file.
\<close>

definition notna :: "'b option \<Rightarrow> bool" where
  "notna v = (v \<noteq> None)"

definition sort_values :: "(nat \<times> df_row) list \<Rightarrow> (nat \<times> df_row) list" where
  "sort_values rows = sort_key (\<lambda>(idx, row). col_page_number row) rows"

definition select_audio_rows :: "df_row list \<Rightarrow> (nat \<times> df_row) list" where
  "select_audio_rows csv =
     sort_values (filter (\<lambda>(idx, row). notna (col_audio_path row)) (enumerate 0 csv))"

text \<open>
  The loop over \<open>audio_rows.iterrows()\<close>. \<open>n\<close> is \<open>len(audio_rows)\<close>, \<open>segs\<close> the list
  \<open>waveforms\<close> with each tensor marked as a page's clip or as silence, \<open>warns\<close> the paths
  of the warnings printed. \<open>resample orig new w\<close> is torchaudio's \<open>Resample(orig, new)(w)\<close>.
\<close>

fun load_loop :: "(string \<Rightarrow> ('a::zero) audio_file option) \<Rightarrow> (nat \<Rightarrow> nat \<Rightarrow> 'a waveform \<Rightarrow> 'a waveform) \<Rightarrow> rat \<Rightarrow> nat \<Rightarrow> (nat \<times> df_row) list \<Rightarrow> 'a segment list \<Rightarrow> string list \<Rightarrow> combine_error + ('a segment list \<times> string list)" where
  "load_loop fs resample silence_duration n [] segs warns = Inr (segs, warns)"
| "load_loop fs resample silence_duration n ((idx, row) # rest) segs warns =
     (case col_audio_path row of
        None \<Rightarrow> Inl NotAPath
      | Some apath \<Rightarrow>
          (case fs apath of
             None \<Rightarrow> load_loop fs resample silence_duration n rest segs (warns @ [apath])
           | Some Unreadable \<Rightarrow> Inl (ReadFailed apath)
           | Some (Audio audio_data sr) \<Rightarrow>
               (let waveform = (if sr \<noteq> sample_rate then resample sr sample_rate audio_data
                                else audio_data);
                    segs1 = segs @ [Clip row waveform]
                in if int idx < int n - 1
                   then
                     (let silence_samples = py_int (silence_duration * of_nat sample_rate)
                      in if silence_samples < 0 then Inl NegativeDimension
                         else load_loop fs resample silence_duration n rest
                                (segs1 @ [Silence (zeros (length waveform) (nat silence_samples))])
                                warns)
                   else load_loop fs resample silence_duration n rest segs1 warns)))"

text \<open>
  What a successful \<open>combine_audiobook\<close> leaves behind: the path returned, the waveform
  written to it at the rate \<open>sample_rate\<close>, the segments it was concatenated from, and the
  paths of the warnings printed.
\<close>

record 'a audiobook =
  returned_path :: string
  written :: "'a waveform"
  segments :: "'a segment list"
  warnings :: "string list"

definition combine_audiobook :: "(string \<Rightarrow> ('a::zero) audio_file option) \<Rightarrow> (nat \<Rightarrow> nat \<Rightarrow> 'a waveform \<Rightarrow> 'a waveform) \<Rightarrow> bool \<Rightarrow> df_row list \<Rightarrow> string \<Rightarrow> rat \<Rightarrow> combine_error + 'a audiobook" where
  "combine_audiobook fs resample writable csv output_path silence_duration =
     (let audio_rows = select_audio_rows csv in
      if length audio_rows = 0 then Inl NoAudioFiles
      else
        (case load_loop fs resample silence_duration (length audio_rows) audio_rows [] [] of
           Inl e \<Rightarrow> Inl e
         | Inr (segs, warns) \<Rightarrow>
             (case torch_cat (map seg_waveform segs) of
                Inl e \<Rightarrow> Inl e
              | Inr combined_waveform \<Rightarrow>
                  if writable
                  then Inr \<lparr>returned_path = output_path, written = combined_waveform,
                            segments = segs, warnings = warns\<rparr>
                  else Inl WriteFailed)))"

subsection \<open>The batch, row by row\<close>

text \<open>
  What the loop of \<open>text_to_speech_batch\<close> does to a single row, used to state its
  properties: the output path of the row's audio file, the test that skips a row, the call
  of \<open>generate_audio\<close> the row gives rise to, and the row as it is written back.
\<close>

definition wav_path :: "string \<Rightarrow> df_row \<Rightarrow> string" where
  "wav_path output_dir row =
     path_join output_dir (''page_'' @ format_03d (col_page_number row) @ ''.wav'')"

definition no_text :: "df_row \<Rightarrow> bool" where
  "no_text row = (case col_text row of None \<Rightarrow> True | Some txt \<Rightarrow> strip txt = [])"

definition submission :: "string \<Rightarrow> df_row \<Rightarrow> (string \<times> string) list" where
  "submission output_dir row =
     (case col_text row of
        None \<Rightarrow> []
      | Some txt \<Rightarrow> if strip txt = [] then [] else [(txt, wav_path output_dir row)])"

definition after_synthesis :: "(string \<Rightarrow> string \<Rightarrow> run_result) \<Rightarrow> string \<Rightarrow> df_row \<Rightarrow> df_row" where
  "after_synthesis run_binary output_dir row =
     (case col_text row of
        None \<Rightarrow> row
      | Some txt \<Rightarrow>
          if strip txt = [] then row
          else if generate_audio run_binary txt (wav_path output_dir row) \<noteq> []
          then row\<lparr>col_audio_path := Some (wav_path output_dir row)\<rparr>
          else row)"

subsection \<open>The audiobook, segment by segment\<close>


fun gaps :: "'a segment list \<Rightarrow> 'a waveform list" where
  "gaps [] = []"
| "gaps (Clip row w # segs) = gaps segs"
| "gaps (Silence w # segs) = w # gaps segs"







section \<open>Concrete inputs\<close>

definition no_extraction :: "string \<Rightarrow> PageData option" where
  "no_extraction p = None"

definition created :: "string \<Rightarrow> event" where
  "created p = \<lparr>is_directory = False, src_path = p\<rparr>"

definition hello_extraction :: "string \<Rightarrow> PageData option" where
  "hello_extraction p = Some \<lparr>page_number = 1, text = ''Hello'', word_count = 1\<rparr>"

definition clock0 :: "string \<Rightarrow> string" where
  "clock0 p = ''2025-01-01 10:00:00''"

definition clock1 :: "string \<Rightarrow> string" where
  "clock1 p = ''2025-01-01 11:00:00''"

definition fixed_vision :: "string \<Rightarrow> string option" where
  "fixed_vision p = Some ''Hello''"

definition collab7 :: "string \<Rightarrow> PageData option" where
  "collab7 t = Some \<lparr>page_number = 7, text = t, word_count = 1\<rparr>"

definition table_row :: "int \<Rightarrow> string option \<Rightarrow> int \<Rightarrow> string \<Rightarrow> string option \<Rightarrow> df_row" where
  "table_row n txt wc fpath apath =
     \<lparr>col_page_number = n, col_text = txt, col_word_count = wc, col_file_path = fpath,
      col_processed_at = ''2025-01-01 10:00:00'', col_audio_path = apath\<rparr>"

definition always_ok :: "string \<Rightarrow> string \<Rightarrow> run_result" where
  "always_ok txt output_path = Completed 0 True"


definition two_clips :: "string \<Rightarrow> int audio_file option" where
  "two_clips p =
     (if p = ''audio/page_001.wav'' then Some (Audio [[1, 1]] 24000)
      else if p = ''audio/page_002.wav'' then Some (Audio [[2, 2]] 24000)
      else None)"

definition no_resample :: "nat \<Rightarrow> nat \<Rightarrow> int waveform \<Rightarrow> int waveform" where
  "no_resample orig new w = w"

definition page1 :: df_row where
  "page1 = table_row 1 (Some ''Hello'') 1 ''book/page_01.jpg'' (Some ''audio/page_001.wav'')"

definition page2 :: df_row where
  "page2 = table_row 2 (Some ''World'') 1 ''book/page_02.jpg'' (Some ''audio/page_002.wav'')"

definition page3 :: df_row where
  "page3 = table_row 3 (Some ''Again'') 1 ''book/page_03.jpg'' (Some ''audio/page_003.wav'')"

definition cover :: df_row where
  "cover = table_row 0 None 0 ''book/cover.jpg'' None"

definition tie_b :: df_row where
  "tie_b = table_row 1 (Some ''World'') 1 ''book/b.jpg'' (Some ''audio/page_002.wav'')"

definition tie_a :: df_row where
  "tie_a = table_row 1 (Some ''Hello'') 1 ''book/a.jpg'' (Some ''audio/page_001.wav'')"

section \<open>Properties of ingestion\<close>

lemma on_created_seen:
  "src_path ev \<in> processed_files h \<Longrightarrow> on_created proc writable now ev h = h"
  by (simp add: on_created_def Let_def)

lemma process_page_processed_files:
  "processed_files (process_page proc writable now p h) = insert p (processed_files h)"
  by (simp add: process_page_def append_to_csv_def Let_def split: option.splits)

lemma on_created_processed_files_mono:
  "p \<in> processed_files h \<Longrightarrow> p \<in> processed_files (on_created proc writable now ev h)"
  by (simp add: on_created_def Let_def process_page_processed_files)

lemma watch_processed_files_mono:
  "p \<in> processed_files h \<Longrightarrow> p \<in> processed_files (watch proc writable evs h)"
  by (induction evs arbitrary: h) (auto simp: on_created_processed_files_mono)

lemma process_page_rows_other:
  "q \<noteq> p \<Longrightarrow>
   filter (\<lambda>r. file_path r = p) (csv_rows (process_page proc writable now q h)) =
   filter (\<lambda>r. file_path r = p) (csv_rows h)"
  by (simp add: process_page_def append_to_csv_def Let_def PageData.extend_def page_row.fields_def
      split: option.splits)

lemma process_page_calls:
  "extraction_calls (process_page proc writable now q h) = extraction_calls h @ [q]"
  by (simp add: process_page_def append_to_csv_def Let_def split: option.splits)

lemma on_created_rows_seen:
  assumes "p \<in> processed_files h"
  shows "filter (\<lambda>r. file_path r = p) (csv_rows (on_created proc writable now ev h)) =
         filter (\<lambda>r. file_path r = p) (csv_rows h)"
proof (cases "src_path ev = p")
  case True
  with assms show ?thesis by (simp add: on_created_seen)
next
  case False
  then show ?thesis
    by (simp add: on_created_def Let_def process_page_rows_other)
qed

lemma on_created_calls_seen:
  assumes "p \<in> processed_files h"
  shows "count_list (extraction_calls (on_created proc writable now ev h)) p =
         count_list (extraction_calls h) p"
proof (cases "src_path ev = p")
  case True
  with assms show ?thesis by (simp add: on_created_seen)
next
  case False
  then show ?thesis
    by (simp add: on_created_def Let_def process_page_calls)
qed

lemma watch_rows_seen:
  "p \<in> processed_files h \<Longrightarrow>
   filter (\<lambda>r. file_path r = p) (csv_rows (watch proc writable evs h)) =
   filter (\<lambda>r. file_path r = p) (csv_rows h)"
proof (induction evs arbitrary: h)
  case Nil
  then show ?case by simp
next
  case (Cons e evs)
  obtain ev now where e: "e = (ev, now)" by (cases e)
  from Cons.prems have "p \<in> processed_files (on_created proc writable now ev h)"
    by (rule on_created_processed_files_mono)
  from Cons.IH [OF this] Cons.prems show ?case
    by (simp add: e on_created_rows_seen)
qed

lemma watch_calls_seen:
  "p \<in> processed_files h \<Longrightarrow>
   count_list (extraction_calls (watch proc writable evs h)) p =
   count_list (extraction_calls h) p"
proof (induction evs arbitrary: h)
  case Nil
  then show ?case by simp
next
  case (Cons e evs)
  obtain ev now where e: "e = (ev, now)" by (cases e)
  from Cons.prems have "p \<in> processed_files (on_created proc writable now ev h)"
    by (rule on_created_processed_files_mono)
  from Cons.IH [OF this] Cons.prems show ?case
    by (simp add: e on_created_calls_seen)
qed


text \<open>
  Claim C10. \<open>process_page\<close> puts the path into \<open>processed_files\<close> before the extraction
  runs. When the extraction of \<open>p\<close> fails, no row is written; every later creation event
  for \<open>p\<close> in the session, after any other events \<open>evs\<close>, leaves the handler as it is
  (nothing is logged, the processor is not called), so the extraction of \<open>p\<close> stays at the
  one failed call and the table still has no new row for \<open>p\<close>.
\<close>

theorem failed_extraction_never_retried:
  assumes "proc p = None"
  shows "p \<in> processed_files (process_page proc writable now p h) \<and>
         csv_rows (process_page proc writable now p h) = csv_rows h \<and>
         extraction_calls (process_page proc writable now p h) = extraction_calls h @ [p] \<and>
         (src_path ev = p \<longrightarrow>
            on_created proc' writable' now' ev
              (watch proc' writable' evs (process_page proc writable now p h)) =
            watch proc' writable' evs (process_page proc writable now p h)) \<and>
         count_list (extraction_calls
            (watch proc' writable' evs (process_page proc writable now p h))) p =
         count_list (extraction_calls h) p + 1 \<and>
         filter (\<lambda>r. file_path r = p)
            (csv_rows (watch proc' writable' evs (process_page proc writable now p h))) =
         filter (\<lambda>r. file_path r = p) (csv_rows h)"
proof -
  let ?h1 = "process_page proc writable now p h"
  have seen: "p \<in> processed_files ?h1"
    by (simp add: process_page_processed_files)
  have rows: "csv_rows ?h1 = csv_rows h"
    using assms by (simp add: process_page_def Let_def)
  have calls: "extraction_calls ?h1 = extraction_calls h @ [p]"
    by (rule process_page_calls)
  have later: "p \<in> processed_files (watch proc' writable' evs ?h1)"
    using seen by (rule watch_processed_files_mono)
  have noop: "src_path ev = p \<longrightarrow>
      on_created proc' writable' now' ev (watch proc' writable' evs ?h1) =
      watch proc' writable' evs ?h1"
    using later by (simp add: on_created_seen)
  have cnt: "count_list (extraction_calls (watch proc' writable' evs ?h1)) p =
      count_list (extraction_calls h) p + 1"
    using watch_calls_seen [OF seen, of proc' writable' evs] by (simp add: calls)
  have tbl: "filter (\<lambda>r. file_path r = p) (csv_rows (watch proc' writable' evs ?h1)) =
      filter (\<lambda>r. file_path r = p) (csv_rows h)"
    using watch_rows_seen [OF seen, of proc' writable' evs] by (simp add: rows)
  from seen rows calls noop cnt tbl show ?thesis by blast
qed

theorem failed_extraction_never_retried_witness:
  "no_extraction ''book/page_01.jpg'' = None \<and>
   src_path (created ''book/page_01.jpg'') = ''book/page_01.jpg'' \<and>
   on_created no_extraction True ''t2'' (created ''book/page_01.jpg'')
     (watch no_extraction True [(created ''book/page_01.jpg'', ''t1'')]
        (process_page no_extraction True ''t0'' ''book/page_01.jpg'' (new_handler []))) =
   watch no_extraction True [(created ''book/page_01.jpg'', ''t1'')]
     (process_page no_extraction True ''t0'' ''book/page_01.jpg'' (new_handler [])) \<and>
   csv_rows (process_page no_extraction True ''t0'' ''book/page_01.jpg'' (new_handler [])) = [] \<and>
   count_list (extraction_calls
     (watch no_extraction True [(created ''book/page_01.jpg'', ''t1'')]
        (process_page no_extraction True ''t0'' ''book/page_01.jpg'' (new_handler []))))
     ''book/page_01.jpg'' = 1"
proof -
  have f: "no_extraction ''book/page_01.jpg'' = None"
    by (simp add: no_extraction_def)
  have e: "src_path (created ''book/page_01.jpg'') = ''book/page_01.jpg''"
    by (simp add: created_def)
  have n: "csv_rows (new_handler []) = [] \<and> extraction_calls (new_handler []) = []"
    by (simp add: new_handler_def)
  from failed_extraction_never_retried [where proc = no_extraction
      and p = "''book/page_01.jpg''" and writable = True and now = "''t0''"
      and h = "new_handler []" and ev = "created ''book/page_01.jpg''"
      and proc' = no_extraction and writable' = True and now' = "''t2''"
      and evs = "[(created ''book/page_01.jpg'', ''t1'')]", OF f] f e n
  show ?thesis by simp
qed

lemma image_ext_jpg: "lower (path_suffix ''book/page_01.jpg'') \<in> image_extensions"
  by (simp add: image_extensions_def lower_def lower_char_def path_suffix_def path_name_def
      rfind_def)

text \<open>
  Claim C1 as stated does not hold: a batch scan calls \<open>process_page\<close> without looking at
  \<open>processed_files\<close> or at the table, so scanning the same image a second time, in the same
  session or with a fresh handler over the table the first run wrote, appends a second row.
\<close>

theorem ingestion_idempotent_counterexample:
  "map file_path (csv_rows
     (process_existing_files hello_extraction True clock1 [(''book/page_01.jpg'', True)]
        (process_existing_files hello_extraction True clock0 [(''book/page_01.jpg'', True)]
           (new_handler [])))) = [''book/page_01.jpg'', ''book/page_01.jpg''] \<and>
   map file_path (csv_rows
     (process_existing_files hello_extraction True clock1 [(''book/page_01.jpg'', True)]
        (new_handler (csv_rows
           (process_existing_files hello_extraction True clock0 [(''book/page_01.jpg'', True)]
              (new_handler [])))))) = [''book/page_01.jpg'', ''book/page_01.jpg'']"
  by (simp add: image_ext_jpg process_page_def append_to_csv_def new_handler_def
      hello_extraction_def Let_def PageData.extend_def page_row.fields_def)

text \<open>
  Claim C1, amended. Within a watch session, once \<open>process_page\<close> has written the row of an
  image \<open>p\<close>, creation events never add another row for \<open>p\<close>: after any later events the
  rows of \<open>p\<close> are those present before plus the one row written, with its text as
  extracted, and a creation event for \<open>p\<close> leaves the handler unchanged.
\<close>

theorem watcher_event_idempotent:
  assumes "proc p = Some d"
  shows "csv_rows (process_page proc True now p h) =
           csv_rows h @ [PageData.extend d (page_row.fields p now [])] \<and>
         filter (\<lambda>r. file_path r = p)
           (csv_rows (watch proc' writable' evs (process_page proc True now p h))) =
         filter (\<lambda>r. file_path r = p) (csv_rows h) @
           [PageData.extend d (page_row.fields p now [])] \<and>
         (src_path ev = p \<longrightarrow>
            on_created proc' writable' now' ev
              (watch proc' writable' evs (process_page proc True now p h)) =
            watch proc' writable' evs (process_page proc True now p h))"
proof -
  let ?h1 = "process_page proc True now p h"
  let ?row = "PageData.extend d (page_row.fields p now [])"
  have seen: "p \<in> processed_files ?h1"
    by (simp add: process_page_processed_files)
  have rows: "csv_rows ?h1 = csv_rows h @ [?row]"
    using assms by (simp add: process_page_def append_to_csv_def Let_def)
  have key: "file_path ?row = p"
    by (simp add: PageData.extend_def page_row.fields_def)
  have tbl: "filter (\<lambda>r. file_path r = p) (csv_rows (watch proc' writable' evs ?h1)) =
      filter (\<lambda>r. file_path r = p) (csv_rows h) @ [?row]"
    using watch_rows_seen [OF seen, of proc' writable' evs] key by (simp add: rows)
  have later: "p \<in> processed_files (watch proc' writable' evs ?h1)"
    using seen by (rule watch_processed_files_mono)
  have noop: "src_path ev = p \<longrightarrow>
      on_created proc' writable' now' ev (watch proc' writable' evs ?h1) =
      watch proc' writable' evs ?h1"
    using later by (simp add: on_created_seen)
  from rows tbl noop show ?thesis by blast
qed

theorem watcher_event_idempotent_witness:
  "hello_extraction ''book/page_01.jpg'' = Some \<lparr>page_number = 1, text = ''Hello'', word_count = 1\<rparr> \<and>
   src_path (created ''book/page_01.jpg'') = ''book/page_01.jpg'' \<and>
   map text (csv_rows
     (on_created hello_extraction True ''t2'' (created ''book/page_01.jpg'')
        (watch hello_extraction True [(created ''book/page_01.jpg'', ''t1'')]
           (process_page hello_extraction True ''t0'' ''book/page_01.jpg'' (new_handler [])))))
     = [''Hello'']"
proof -
  have f: "hello_extraction ''book/page_01.jpg'' =
      Some \<lparr>page_number = 1, text = ''Hello'', word_count = 1\<rparr>"
    by (simp add: hello_extraction_def)
  have e: "src_path (created ''book/page_01.jpg'') = ''book/page_01.jpg''"
    by (simp add: created_def)
  have n: "csv_rows (new_handler []) = []"
    by (simp add: new_handler_def)
  have w: "watch hello_extraction True [(created ''book/page_01.jpg'', ''t1'')]
       (process_page hello_extraction True ''t0'' ''book/page_01.jpg'' (new_handler [])) =
     process_page hello_extraction True ''t0'' ''book/page_01.jpg'' (new_handler [])"
    using watcher_event_idempotent [where proc = hello_extraction
      and p = "''book/page_01.jpg''" and now = "''t0''"
      and h = "new_handler []" and ev = "created ''book/page_01.jpg''"
      and proc' = hello_extraction and writable' = True and now' = "''t1''"
      and evs = "[]", OF f] e by simp
  from watcher_event_idempotent [where proc = hello_extraction
      and p = "''book/page_01.jpg''" and now = "''t0''"
      and h = "new_handler []" and ev = "created ''book/page_01.jpg''"
      and proc' = hello_extraction and writable' = True and now' = "''t2''"
      and evs = "[(created ''book/page_01.jpg'', ''t1'')]", OF f] f e n w
  show ?thesis by (simp add: PageData.extend_def page_row.fields_def)
qed

lemma re_search_digits_run:
  assumes "\<forall>c\<in>set pre. \<not> is_digit c" and "ds \<noteq> []" and "\<forall>c\<in>set ds. is_digit c"
    and "post = [] \<or> \<not> is_digit (hd post)"
  shows "re_search_digits (pre @ ds @ post) = Some ds"
proof -
  from assms(2) obtain x xs where ds: "ds = x # xs" by (cases ds) auto
  with assms(3) have x: "is_digit x" by simp
  have "dropWhile (\<lambda>c. \<not> is_digit c) (pre @ ds @ post) = ds @ post"
    using assms(1) x by (simp add: ds dropWhile_append3)
  moreover have "takeWhile is_digit (ds @ post) = ds"
  proof (cases post)
    case Nil
    with assms(3) show ?thesis by simp
  next
    case (Cons y ys)
    with assms(4) have "\<not> is_digit y" by simp
    with assms(3) show ?thesis by (simp add: Cons takeWhile_tail)
  qed
  ultimately show ?thesis
    by (simp add: re_search_digits_def ds)
qed

lemma re_search_digits_none:
  assumes "\<forall>c\<in>set s. \<not> is_digit c"
  shows "re_search_digits s = None"
proof -
  from assms have "dropWhile (\<lambda>c. \<not> is_digit c) s = []" by simp
  then show ?thesis by (simp only: re_search_digits_def list.case)
qed

lemma foldl_digits_positional:
  "foldl (\<lambda>a c. 10 * a + digit_val c) a ds =
   a * 10 ^ length ds + (\<Sum>i<length ds. digit_val (ds ! i) * 10 ^ (length ds - Suc i))"
proof (induction ds arbitrary: a)
  case Nil
  then show ?case by simp
next
  case (Cons c cs)
  have "(\<Sum>i<length (c # cs). digit_val ((c # cs) ! i) * 10 ^ (length (c # cs) - Suc i)) =
      digit_val c * 10 ^ length cs +
      (\<Sum>i<length cs. digit_val (cs ! i) * 10 ^ (length cs - Suc i))"
    using sum.lessThan_Suc_shift
      [of "\<lambda>i. digit_val ((c # cs) ! i) * 10 ^ (length (c # cs) - Suc i)" "length cs"]
    by simp
  moreover have "foldl (\<lambda>a c. 10 * a + digit_val c) a (c # cs) =
      (10 * a + digit_val c) * 10 ^ length cs +
      (\<Sum>i<length cs. digit_val (cs ! i) * 10 ^ (length cs - Suc i))"
    using Cons.IH [of "10 * a + digit_val c"] by simp
  ultimately show ?case
    by (simp only: length_Cons power_Suc) (simp add: algebra_simps)
qed

lemma int_of_digits_positional:
  "int_of_digits ds =
   (\<Sum>i<length ds. (int (of_char (ds ! i)) - 48) * 10 ^ (length ds - Suc i))"
  using foldl_digits_positional [of 0 ds] by (simp add: int_of_digits_def digit_val_def)

text \<open>
  Claim C9. When the vision step and the extraction step succeed, \<open>process_page\<close> stores one
  row whose text and word count are the extraction's. If the filename stem is
  \<open>pre @ ds @ post\<close> with no digit in \<open>pre\<close>, \<open>ds\<close> a non-empty run of digits and \<open>post\<close>
  empty or starting with a non-digit (so \<open>ds\<close> is the first run of digits), and \<open>v\<close> is the
  number \<open>ds\<close> denotes in decimal notation (digit \<open>i\<close> weighs \<open>10 ^ (length ds - 1 - i)\<close>),
  the stored page number is \<open>v\<close> when \<open>v\<close> is positive and the extraction's page number
  otherwise; if the stem has no digit it is the extraction's page number.
\<close>

theorem page_number_resolution:
  assumes "vision p = Some t" and "extractor t = Some d"
  shows "\<exists>r. process vision extractor p = Some r \<and>
           csv_rows (process_page (process vision extractor) True now p h) =
             csv_rows h @ [PageData.extend r (page_row.fields p now [])] \<and>
           text r = text d \<and> word_count r = word_count d \<and>
           (path_stem p = pre @ ds @ post \<and> (\<forall>c\<in>set pre. \<not> is_digit c) \<and> ds \<noteq> [] \<and>
              (\<forall>c\<in>set ds. is_digit c) \<and> (post = [] \<or> \<not> is_digit (hd post)) \<and>
              v = (\<Sum>i<length ds. (int (of_char (ds ! i)) - 48) * 10 ^ (length ds - Suc i)) \<longrightarrow>
              page_number r = (if 0 < v then v else page_number d)) \<and>
           ((\<forall>c\<in>set (path_stem p). \<not> is_digit c) \<longrightarrow> page_number r = page_number d)"
proof -
  let ?n = "case re_search_digits (path_stem p) of Some m \<Rightarrow> int_of_digits m | None \<Rightarrow> 0"
  let ?r = "if 0 < ?n then d\<lparr>page_number := ?n\<rparr> else d"
  have t2j: "text2json extractor t p = Some ?r"
    using assms(2) by (simp add: text2json_def Let_def)
  then have pr: "process vision extractor p = Some ?r"
    using assms(1) by (simp add: process_def)
  have rows: "csv_rows (process_page (process vision extractor) True now p h) =
      csv_rows h @ [PageData.extend ?r (page_row.fields p now [])]"
    by (simp add: process_page_def pr append_to_csv_def Let_def)
  have keep: "text ?r = text d \<and> word_count ?r = word_count d"
    by simp
  have run: "path_stem p = pre @ ds @ post \<and> (\<forall>c\<in>set pre. \<not> is_digit c) \<and> ds \<noteq> [] \<and>
      (\<forall>c\<in>set ds. is_digit c) \<and> (post = [] \<or> \<not> is_digit (hd post)) \<and>
      v = (\<Sum>i<length ds. (int (of_char (ds ! i)) - 48) * 10 ^ (length ds - Suc i)) \<longrightarrow>
      page_number ?r = (if 0 < v then v else page_number d)"
  proof
    assume a: "path_stem p = pre @ ds @ post \<and> (\<forall>c\<in>set pre. \<not> is_digit c) \<and> ds \<noteq> [] \<and>
      (\<forall>c\<in>set ds. is_digit c) \<and> (post = [] \<or> \<not> is_digit (hd post)) \<and>
      v = (\<Sum>i<length ds. (int (of_char (ds ! i)) - 48) * 10 ^ (length ds - Suc i))"
    then have "re_search_digits (path_stem p) = Some ds"
      using re_search_digits_run [of pre ds post] by simp
    moreover from a have "int_of_digits ds = v"
      by (simp only: int_of_digits_positional)
    ultimately show "page_number ?r = (if 0 < v then v else page_number d)"
      by simp
  qed
  have none: "(\<forall>c\<in>set (path_stem p). \<not> is_digit c) \<longrightarrow> page_number ?r = page_number d"
  proof
    assume "\<forall>c\<in>set (path_stem p). \<not> is_digit c"
    then have "re_search_digits (path_stem p) = None"
      by (rule re_search_digits_none)
    then show "page_number ?r = page_number d" by simp
  qed
  from pr rows keep run none show ?thesis by blast
qed

theorem page_number_resolution_witness:
  "fixed_vision ''book/page_12.jpg'' = Some ''Hello'' \<and>
   fixed_vision ''book/scan_000.jpg'' = Some ''Hello'' \<and>
   fixed_vision ''book/cover.jpg'' = Some ''Hello'' \<and>
   collab7 ''Hello'' = Some \<lparr>page_number = 7, text = ''Hello'', word_count = 1\<rparr> \<and>
   path_stem ''book/page_12.jpg'' = ''page_'' @ ''12'' @ [] \<and>
   path_stem ''book/scan_000.jpg'' = ''scan_'' @ ''000'' @ [] \<and>
   map page_number (csv_rows (process_page (process fixed_vision collab7) True ''t0''
      ''book/page_12.jpg'' (new_handler []))) = [12] \<and>
   map page_number (csv_rows (process_page (process fixed_vision collab7) True ''t0''
      ''book/scan_000.jpg'' (new_handler []))) = [7] \<and>
   map page_number (csv_rows (process_page (process fixed_vision collab7) True ''t0''
      ''book/cover.jpg'' (new_handler []))) = [7]"
proof -
  have v1: "fixed_vision ''book/page_12.jpg'' = Some ''Hello''"
    and v2: "fixed_vision ''book/cover.jpg'' = Some ''Hello''"
    and v3: "fixed_vision ''book/scan_000.jpg'' = Some ''Hello''"
    by (simp_all add: fixed_vision_def)
  have e: "collab7 ''Hello'' = Some \<lparr>page_number = 7, text = ''Hello'', word_count = 1\<rparr>"
    by (simp add: collab7_def)
  have s1: "path_stem ''book/page_12.jpg'' = ''page_'' @ ''12'' @ []"
    by (simp add: path_stem_def path_name_def rfind_def)
  have s3: "path_stem ''book/scan_000.jpg'' = ''scan_'' @ ''000'' @ []"
    by (simp add: path_stem_def path_name_def rfind_def)
  have d1: "(\<forall>c\<in>set ''page_''. \<not> is_digit c) \<and> (\<forall>c\<in>set ''12''. is_digit c)"
    by (simp add: is_digit_def)
  have d3: "(\<forall>c\<in>set ''scan_''. \<not> is_digit c) \<and> (\<forall>c\<in>set ''000''. is_digit c)"
    by (simp add: is_digit_def)
  have val1: "(\<Sum>i<length ''12''. (int (of_char (''12'' ! i)) - 48) * 10 ^ (length ''12'' - Suc i)) =
      (12::int)"
    by (simp add: lessThan_Suc)
  have val3: "(\<Sum>i<length ''000''. (int (of_char (''000'' ! i)) - 48) * 10 ^ (length ''000'' - Suc i)) =
      (0::int)"
    by (simp add: lessThan_Suc numeral_3_eq_3)
  have s2: "\<forall>c\<in>set (path_stem ''book/cover.jpg''). \<not> is_digit c"
    by (simp add: path_stem_def path_name_def rfind_def is_digit_def)
  have n: "csv_rows (new_handler []) = []"
    by (simp add: new_handler_def)
  from page_number_resolution [where vision = fixed_vision and extractor = collab7
      and p = "''book/page_12.jpg''" and pre = "''page_''" and ds = "''12''" and post = "[]"
      and v = 12 and now = "''t0''" and h = "new_handler []", OF v1 e]
  obtain r where r: "csv_rows (process_page (process fixed_vision collab7) True ''t0''
        ''book/page_12.jpg'' (new_handler [])) =
      csv_rows (new_handler []) @ [PageData.extend r (page_row.fields ''book/page_12.jpg'' ''t0'' [])]"
    and rn: "path_stem ''book/page_12.jpg'' = ''page_'' @ ''12'' @ [] \<and>
      (\<forall>c\<in>set ''page_''. \<not> is_digit c) \<and> ''12'' \<noteq> [] \<and> (\<forall>c\<in>set ''12''. is_digit c) \<and>
      ([] = [] \<or> \<not> is_digit (hd [])) \<and>
      (12::int) =
        (\<Sum>i<length ''12''. (int (of_char (''12'' ! i)) - 48) * 10 ^ (length ''12'' - Suc i)) \<longrightarrow>
      page_number r = (if 0 < (12::int) then 12
        else page_number \<lparr>page_number = 7, text = ''Hello'', word_count = 1\<rparr>)"
    by blast
  from rn s1 d1 have "page_number r = 12"
    by (simp only: val1) simp
  with r n have c1: "map page_number (csv_rows (process_page (process fixed_vision collab7) True
      ''t0'' ''book/page_12.jpg'' (new_handler []))) = [12]"
    by (simp add: PageData.extend_def page_row.fields_def)
  from page_number_resolution [where vision = fixed_vision and extractor = collab7
      and p = "''book/scan_000.jpg''" and pre = "''scan_''" and ds = "''000''" and post = "[]"
      and v = 0 and now = "''t0''" and h = "new_handler []", OF v3 e]
  obtain z where z: "csv_rows (process_page (process fixed_vision collab7) True ''t0''
        ''book/scan_000.jpg'' (new_handler [])) =
      csv_rows (new_handler []) @ [PageData.extend z (page_row.fields ''book/scan_000.jpg'' ''t0'' [])]"
    and zn: "path_stem ''book/scan_000.jpg'' = ''scan_'' @ ''000'' @ [] \<and>
      (\<forall>c\<in>set ''scan_''. \<not> is_digit c) \<and> ''000'' \<noteq> [] \<and> (\<forall>c\<in>set ''000''. is_digit c) \<and>
      ([] = [] \<or> \<not> is_digit (hd [])) \<and>
      (0::int) =
        (\<Sum>i<length ''000''. (int (of_char (''000'' ! i)) - 48) * 10 ^ (length ''000'' - Suc i)) \<longrightarrow>
      page_number z = (if 0 < (0::int) then 0
        else page_number \<lparr>page_number = 7, text = ''Hello'', word_count = 1\<rparr>)"
    by blast
  from zn s3 d3 have "page_number z = 7"
    by (simp only: val3) simp
  with z n have c3: "map page_number (csv_rows (process_page (process fixed_vision collab7) True
      ''t0'' ''book/scan_000.jpg'' (new_handler []))) = [7]"
    by (simp add: PageData.extend_def page_row.fields_def)
  from page_number_resolution [where vision = fixed_vision and extractor = collab7
      and p = "''book/cover.jpg''" and now = "''t0''" and h = "new_handler []", OF v2 e]
  obtain q where q: "csv_rows (process_page (process fixed_vision collab7) True ''t0''
        ''book/cover.jpg'' (new_handler [])) =
      csv_rows (new_handler []) @ [PageData.extend q (page_row.fields ''book/cover.jpg'' ''t0'' [])]"
    and qn: "(\<forall>c\<in>set (path_stem ''book/cover.jpg''). \<not> is_digit c) \<longrightarrow>
      page_number q = page_number \<lparr>page_number = 7, text = ''Hello'', word_count = 1\<rparr>"
    by blast
  from qn s2 have "page_number q = 7" by simp
  with q n have c2: "map page_number (csv_rows (process_page (process fixed_vision collab7) True
      ''t0'' ''book/cover.jpg'' (new_handler []))) = [7]"
    by (simp add: PageData.extend_def page_row.fields_def)
  from v1 v2 v3 e s1 s3 c1 c2 c3 show ?thesis by blast
qed

section \<open>Properties of batch synthesis\<close>

lemma strip_empty_iff: "strip s = [] \<longleftrightarrow> (\<forall>c\<in>set s. is_space c)"
proof
  assume "strip s = []"
  then have "dropWhile is_space (rev (dropWhile is_space s)) = []"
    by (simp add: strip_def)
  then have "\<forall>c\<in>set (dropWhile is_space s). is_space c"
    by (simp add: dropWhile_eq_Nil_conv)
  moreover have "\<forall>c\<in>set (takeWhile is_space s). is_space c"
    by (auto dest: set_takeWhileD)
  moreover have "set s = set (takeWhile is_space s) \<union> set (dropWhile is_space s)"
    by (metis set_append takeWhile_dropWhile_id)
  ultimately show "\<forall>c\<in>set s. is_space c" by blast
next
  assume "\<forall>c\<in>set s. is_space c"
  then have d: "dropWhile is_space s = []" by simp
  show "strip s = []" unfolding strip_def d by simp
qed

lemma batch_step_eq:
  assumes "df st = pre @ row # post" and "idx = length pre"
  shows "batch_step run_binary output_dir idx row st =
         \<lparr>df = pre @ after_synthesis run_binary output_dir row # post,
          submitted = submitted st @ submission output_dir row\<rparr>"
  using assms
  by (cases st)
     (auto simp: batch_step_def after_synthesis_def submission_def no_text_def wav_path_def
        Let_def nth_append list_update_append split: option.splits)

lemma batch_loop_eq:
  assumes "df st = pre @ rows"
  shows "batch_loop run_binary output_dir (enumerate (length pre) rows) st =
         \<lparr>df = pre @ map (after_synthesis run_binary output_dir) rows,
          submitted = submitted st @ concat (map (submission output_dir) rows)\<rparr>"
  using assms
proof (induction rows arbitrary: pre st)
  case Nil
  then show ?case by (cases st) simp
next
  case (Cons row rows)
  let ?st1 = "batch_step run_binary output_dir (length pre) row st"
  have step: "?st1 = \<lparr>df = pre @ after_synthesis run_binary output_dir row # rows,
      submitted = submitted st @ submission output_dir row\<rparr>"
    using Cons.prems by (rule batch_step_eq) simp
  then have "df ?st1 = (pre @ [after_synthesis run_binary output_dir row]) @ rows"
    by simp
  from Cons.IH [OF this] show ?case
    by (simp add: step)
qed

lemma text_to_speech_batch_eq:
  "text_to_speech_batch run_binary output_dir csv =
     (None, \<lparr>df = map (after_synthesis run_binary output_dir) csv,
             submitted = concat (map (submission output_dir) csv)\<rparr>)"
  using batch_loop_eq [of "\<lparr>df = csv, submitted = []\<rparr>" "[]" csv run_binary output_dir]
  by (simp add: text_to_speech_batch_def)


lemma submission_no_text: "no_text row \<Longrightarrow> submission output_dir row = []"
  by (auto simp: submission_def no_text_def split: option.splits)

lemma after_synthesis_no_text: "no_text row \<Longrightarrow> after_synthesis run_binary output_dir row = row"
  by (auto simp: after_synthesis_def no_text_def split: option.splits)


lemma submission_audio_path_update:
  "submission output_dir (row\<lparr>col_audio_path := a\<rparr>) = submission output_dir row"
  by (simp add: submission_def wav_path_def split: option.splits)


lemma format_03d_1: "format_03d 1 = ''001''"
  by (simp add: format_03d_def numeral_2_eq_2)


lemma strip_Hello: "strip ''Hello'' = ''Hello''"
  by (simp add: strip_def is_space_def)






text \<open>
  Claim C8 as stated does not hold: a row with \<open>word_count = 0\<close> and a non-empty text is
  submitted; the loop tests the text only.
\<close>

theorem empty_page_counterexample:
  "submitted (snd (text_to_speech_batch always_ok ''audio''
      [table_row 1 (Some ''Hello'') 0 ''book/page_01.jpg'' None])) =
   [(''Hello'', ''audio/page_001.wav'')]"
  by (simp add: text_to_speech_batch_def batch_step_def table_row_def path_join_def
      format_03d_1 strip_Hello Let_def)

text \<open>
  Claim C8, amended. A row whose text is missing or consists of whitespace only is written
  back unchanged, and the calls of \<open>generate_audio\<close> are those of the table without that
  row: the row is never submitted.
\<close>

theorem empty_text_never_submitted:
  assumes "i < length csv"
    and "col_text (csv ! i) = None \<or>
         (\<exists>txt. col_text (csv ! i) = Some txt \<and> (\<forall>c\<in>set txt. is_space c))"
  shows "length (df (snd (text_to_speech_batch run_binary output_dir csv))) = length csv \<and>
         df (snd (text_to_speech_batch run_binary output_dir csv)) ! i = csv ! i \<and>
         submitted (snd (text_to_speech_batch run_binary output_dir csv)) =
         submitted (snd (text_to_speech_batch run_binary output_dir
            (take i csv @ drop (Suc i) csv)))"
proof -
  from assms(2) have blank: "no_text (csv ! i)"
    by (auto simp: no_text_def strip_empty_iff)
  have kept: "df (snd (text_to_speech_batch run_binary output_dir csv)) ! i = csv ! i"
    using assms(1) blank by (simp add: text_to_speech_batch_eq after_synthesis_no_text)
  have split: "csv = take i csv @ csv ! i # drop (Suc i) csv"
    using assms(1) by (rule id_take_nth_drop)
  have "concat (map (submission output_dir) csv) =
      concat (map (submission output_dir) (take i csv @ csv ! i # drop (Suc i) csv))"
    using split by simp
  also have "\<dots> = concat (map (submission output_dir) (take i csv @ drop (Suc i) csv))"
    using blank by (simp add: submission_no_text)
  finally have subs: "submitted (snd (text_to_speech_batch run_binary output_dir csv)) =
      submitted (snd (text_to_speech_batch run_binary output_dir (take i csv @ drop (Suc i) csv)))"
    by (simp add: text_to_speech_batch_eq)
  from kept subs show ?thesis by (simp add: text_to_speech_batch_eq)
qed

theorem empty_text_never_submitted_witness:
  "(1::nat) < length [table_row 1 (Some ''Hello'') 1 ''book/page_01.jpg'' None,
      table_row 2 (Some ''  '') 0 ''book/page_02.jpg'' None] \<and>
   submitted (snd (text_to_speech_batch always_ok ''audio''
     [table_row 1 (Some ''Hello'') 1 ''book/page_01.jpg'' None,
      table_row 2 (Some ''  '') 0 ''book/page_02.jpg'' None])) =
   [(''Hello'', ''audio/page_001.wav'')]"
proof -
  let ?csv = "[table_row 1 (Some ''Hello'') 1 ''book/page_01.jpg'' None,
      table_row 2 (Some ''  '') 0 ''book/page_02.jpg'' None]"
  have i: "(1::nat) < length ?csv" by simp
  have sp: "\<forall>c\<in>set ''  ''. is_space c" by (simp add: is_space_def)
  then have b: "col_text (?csv ! 1) = None \<or>
      (\<exists>txt. col_text (?csv ! 1) = Some txt \<and> (\<forall>c\<in>set txt. is_space c))"
    by (simp add: table_row_def)
  have one: "submitted (snd (text_to_speech_batch always_ok ''audio''
      [table_row 1 (Some ''Hello'') 1 ''book/page_01.jpg'' None])) =
      [(''Hello'', ''audio/page_001.wav'')]"
    by (simp add: text_to_speech_batch_def batch_step_def table_row_def path_join_def
        format_03d_1 strip_Hello Let_def)
  from empty_text_never_submitted [OF i b, of always_ok "''audio''"] one i sp
  show ?thesis by simp
qed

section \<open>Properties of the audiobook assembly\<close>


lemma gaps_append: "gaps (xs @ ys) = gaps xs @ gaps ys"
  by (induction xs rule: gaps.induct) auto

lemma load_loop_not_NoAudioFiles:
  "load_loop fs resample d n rows segs warns \<noteq> Inl NoAudioFiles"
  by (induction fs resample d n rows segs warns rule: load_loop.induct)
     (auto simp: Let_def split: option.splits audio_file.splits)






lemma map_snd_filter_enumerate:
  "map snd (filter (\<lambda>(idx, row). P row) (enumerate i xs)) = filter P xs"
  by (induction xs arbitrary: i) auto


lemma mset_select_audio_rows:
  "mset (map snd (select_audio_rows csv)) =
   mset (filter (\<lambda>row. notna (col_audio_path row)) csv)"
proof -
  have "mset (map snd (select_audio_rows csv)) =
      mset (map snd (filter (\<lambda>(idx, row). notna (col_audio_path row)) (enumerate 0 csv)))"
    by (simp add: select_audio_rows_def sort_values_def)
  then show ?thesis by (simp only: map_snd_filter_enumerate)
qed

lemma set_select_audio_rows:
  "set (map snd (select_audio_rows csv)) = {row \<in> set csv. notna (col_audio_path row)}"
proof -
  have "set (map snd (select_audio_rows csv)) = set_mset (mset (map snd (select_audio_rows csv)))"
    by (simp only: set_mset_mset)
  also have "\<dots> = set (filter (\<lambda>row. notna (col_audio_path row)) csv)"
    by (simp only: mset_select_audio_rows set_mset_mset)
  finally show ?thesis by simp
qed


lemma select_audio_rows_empty_iff:
  "select_audio_rows csv = [] \<longleftrightarrow> (\<forall>row\<in>set csv. col_audio_path row = None)"
proof -
  have "select_audio_rows csv = [] \<longleftrightarrow> set (map snd (select_audio_rows csv)) = {}"
    by simp
  also have "\<dots> \<longleftrightarrow> (\<forall>row\<in>set csv. col_audio_path row = None)"
    unfolding set_select_audio_rows by (auto simp: notna_def)
  finally show ?thesis .
qed





lemma torch_cat_not_NoAudioFiles: "torch_cat ws \<noteq> Inl NoAudioFiles"
  by (auto simp: torch_cat_def split: list.splits)




text \<open>
  Claim C6. \<open>combine_audiobook\<close> fails with the error "No audio files found in CSV"
  exactly when no row of the table has an \<open>audio_path\<close>; with at least one such row it
  goes on to the loop, and whatever it fails with then is another error.
\<close>

theorem no_audio_error_iff:
  "combine_audiobook fs resample writable csv output_path d = Inl NoAudioFiles \<longleftrightarrow>
   (\<forall>row\<in>set csv. col_audio_path row = None)"
proof (cases "select_audio_rows csv = []")
  case True
  then have "combine_audiobook fs resample writable csv output_path d = Inl NoAudioFiles"
    by (simp add: combine_audiobook_def)
  moreover from True have "\<forall>row\<in>set csv. col_audio_path row = None"
    using select_audio_rows_empty_iff [of csv] by blast
  ultimately show ?thesis by blast
next
  case False
  have "combine_audiobook fs resample writable csv output_path d \<noteq> Inl NoAudioFiles"
    using False load_loop_not_NoAudioFiles [of fs resample d _ "select_audio_rows csv" "[]" "[]"]
      torch_cat_not_NoAudioFiles
    by (auto simp: combine_audiobook_def Let_def split: sum.splits if_splits)
  moreover from False have "\<not> (\<forall>row\<in>set csv. col_audio_path row = None)"
    using select_audio_rows_empty_iff [of csv] by blast
  ultimately show ?thesis by blast
qed

theorem no_audio_error_iff_witness:
  "combine_audiobook two_clips no_resample True [cover] ''book/audiobook.wav'' 1 =
     Inl NoAudioFiles \<and>
   combine_audiobook two_clips no_resample True [cover, page3] ''book/audiobook.wav'' 1 \<noteq>
     Inl NoAudioFiles"
proof -
  have "\<forall>row\<in>set [cover]. col_audio_path row = None"
    by (simp add: cover_def table_row_def)
  with no_audio_error_iff [of two_clips no_resample True "[cover]" "''book/audiobook.wav''" 1]
  have a: "combine_audiobook two_clips no_resample True [cover] ''book/audiobook.wav'' 1 =
      Inl NoAudioFiles"
    by blast
  have "\<not> (\<forall>row\<in>set [cover, page3]. col_audio_path row = None)"
    by (simp add: page3_def table_row_def)
  with no_audio_error_iff [of two_clips no_resample True "[cover, page3]"
      "''book/audiobook.wav''" 1]
  have b: "combine_audiobook two_clips no_resample True [cover, page3]
      ''book/audiobook.wav'' 1 \<noteq> Inl NoAudioFiles"
    by blast
  from a b show ?thesis by (rule conjI)
qed

lemmas combine_eval =
  combine_audiobook_def select_audio_rows_def sort_values_def notna_def
  page1_def page2_def page3_def cover_def tie_a_def tie_b_def table_row_def two_clips_def
  sample_rate_def py_int_def zeros_def torch_cat_def Let_def








text \<open>
  The test \<open>idx < len(audio_rows) - 1\<close> compares the index label of the row, its position
  in the CSV file, not its position among the selected rows: with a row without audio in
  front, two clips are joined without any silence.
\<close>

lemma gap_test_compares_index_label:
  "combine_audiobook two_clips no_resample True [cover, page1, page2]
     ''book/audiobook.wav'' 1 =
   Inr \<lparr>returned_path = ''book/audiobook.wav'', written = [[1, 1, 2, 2]],
        segments = [Clip page1 [[1, 1]], Clip page2 [[2, 2]]],
        warnings = []\<rparr>"
  by (simp add: combine_eval)



end
